theory Spec2Isabelle
  imports Complex_Main "HOL-Library.Sublist"
begin

section \<open>Transaction dashboard: date parsing, filtering and aggregation\<close>

text \<open>
  A shallow embedding of \<^verbatim>\<open>src/components/TransactionDashboard.tsx\<close>:
  \<^verbatim>\<open>parseTransferDate\<close>, \<^verbatim>\<open>combinedFilter\<close>, \<^verbatim>\<open>filterTransactions\<close> and the
  two \<^verbatim>\<open>reduce\<close> aggregates, together with the parts of the ECMAScript library they
  call (\<^verbatim>\<open>trim\<close>, \<^verbatim>\<open>split\<close>, \<^verbatim>\<open>parseInt\<close>, \<^verbatim>\<open>parseFloat\<close>, \<^verbatim>\<open>padStart\<close>,
  \<^verbatim>\<open>toLowerCase\<close>, \<^verbatim>\<open>includes\<close> and the \<^verbatim>\<open>Date\<close> constructor and getters).

  Conventions.
  \<^item> A JavaScript string is a \<^typ>\<open>string\<close>; \<^verbatim>\<open>string | null\<close> is \<^typ>\<open>string option\<close>.
  \<^item> An integer-valued Number is an \<^typ>\<open>int\<close>; a Number that may be \<^verbatim>\<open>NaN\<close> is an
    \<^typ>\<open>int option\<close> with \<^term>\<open>None\<close> for \<^verbatim>\<open>NaN\<close>. Integers are exact: the rounding
    of doubles beyond \<open>2\<^sup>5\<^sup>3\<close> is not modelled.
  \<^item> A \<^verbatim>\<open>Date\<close> object with a valid time value is that time value (milliseconds
    since the epoch, UTC); \<^verbatim>\<open>Date | null\<close> is \<^typ>\<open>int option\<close>.
\<close>

subsection \<open>Strings\<close>

text \<open>The truthiness of a string: only the empty string is falsy.\<close>

definition truthy :: "string \<Rightarrow> bool" where
  "truthy s = (s \<noteq> [])"

text \<open>\<^verbatim>\<open>a || b\<close> on strings.\<close>

definition or_else :: "string \<Rightarrow> string \<Rightarrow> string" where
  "or_else a b = (if truthy a then a else b)"

text \<open>
  White space and line terminators of ECMAScript among the code units below 256:
  TAB, LF, VT, FF, CR, SP and NBSP.
\<close>

definition isWhiteSpace :: "char \<Rightarrow> bool" where
  "isWhiteSpace c = (of_char c \<in> {9, 10, 11, 12, 13, 32, 160 :: nat})"

definition trimStart :: "string \<Rightarrow> string" where
  "trimStart s = dropWhile isWhiteSpace s"

definition trimEnd :: "string \<Rightarrow> string" where
  "trimEnd s = rev (dropWhile isWhiteSpace (rev s))"

definition trim :: "string \<Rightarrow> string" where
  "trim s = trimEnd (trimStart s)"

text \<open>
  \<^verbatim>\<open>s.split(sep)\<close> for a separator of one character: the pieces between the
  separators, empty pieces kept; the result is never the empty array.
\<close>

fun split :: "char \<Rightarrow> string \<Rightarrow> string list" where
  "split sep [] = [[]]"
| "split sep (c # cs) =
     (if c = sep then [] # split sep cs
      else (case split sep cs of
              [] \<Rightarrow> [[c]]
            | p # ps \<Rightarrow> (c # p) # ps))"

definition isDigit :: "char \<Rightarrow> bool" where
  "isDigit c = (48 \<le> (of_char c :: nat) \<and> (of_char c :: nat) \<le> 57)"

definition digitVal :: "char \<Rightarrow> int" where
  "digitVal c = int (of_char c) - 48"

definition digitsVal :: "string \<Rightarrow> int" where
  "digitsVal ds = foldl (\<lambda>a c. 10 * a + digitVal c) 0 ds"

text \<open>
  \<^verbatim>\<open>parseInt(s, 10)\<close>: leading white space is skipped, one sign is read, then the
  longest run of decimal digits; no digit gives \<^verbatim>\<open>NaN\<close>. What follows the digits is
  ignored.
\<close>

definition parseInt :: "string \<Rightarrow> int option" where
  "parseInt s =
     (let t = trimStart s;
          neg = (case t of c # _ \<Rightarrow> c = CHR ''-'' | [] \<Rightarrow> False);
          r = (case t of c # cs \<Rightarrow> if c = CHR ''+'' \<or> c = CHR ''-'' then cs else t | [] \<Rightarrow> t);
          z = takeWhile isDigit r
      in if z = [] then None
         else Some (if neg then - digitsVal z else digitsVal z))"

text \<open>\<^verbatim>\<open>parseInt(a[i], 10)\<close> where the index may be out of range: \<^verbatim>\<open>undefined\<close> gives \<^verbatim>\<open>NaN\<close>.\<close>

definition parseIntAt :: "string list \<Rightarrow> nat \<Rightarrow> int option" where
  "parseIntAt a i = (if i < length a then parseInt (a ! i) else None)"

text \<open>\<^verbatim>\<open>n || 0\<close> on a Number: \<^verbatim>\<open>NaN\<close> and \<open>0\<close> are falsy.\<close>

definition or_zero :: "int option \<Rightarrow> int" where
  "or_zero n = (case n of None \<Rightarrow> 0 | Some v \<Rightarrow> v)"

text \<open>\<^verbatim>\<open>String(n)\<close> for an integer \<open>n\<close> (no exponent: the values here are below \<open>10\<^sup>2\<^sup>1\<close>).\<close>

fun natToString :: "nat \<Rightarrow> string" where
  "natToString n =
     (if n < 10 then [char_of (48 + n)]
      else natToString (n div 10) @ [char_of (48 + n mod 10)])"

declare natToString.simps [simp del]

definition numberToString :: "int \<Rightarrow> string" where
  "numberToString n = (if n < 0 then CHR ''-'' # natToString (nat (- n)) else natToString (nat n))"

text \<open>\<^verbatim>\<open>s.padStart(n, "0")\<close>.\<close>

definition padStart :: "nat \<Rightarrow> string \<Rightarrow> string" where
  "padStart n s = replicate (n - length s) CHR ''0'' @ s"

text \<open>
  \<^verbatim>\<open>s.toLowerCase()\<close> on the letters A to Z; other code units are left as they are
  (the case mapping of Unicode beyond ASCII is not modelled).
\<close>

definition lowerChar :: "char \<Rightarrow> char" where
  "lowerChar c = (if 65 \<le> (of_char c :: nat) \<and> (of_char c :: nat) \<le> 90
                  then char_of ((of_char c :: nat) + 32) else c)"

definition toLowerCase :: "string \<Rightarrow> string" where
  "toLowerCase s = map lowerChar s"

fun startsWith :: "string \<Rightarrow> string \<Rightarrow> bool" where
  "startsWith s [] = True"
| "startsWith [] (p # ps) = False"
| "startsWith (c # cs) (p # ps) = (c = p \<and> startsWith cs ps)"

text \<open>\<^verbatim>\<open>s.includes(sub)\<close>: \<open>sub\<close> occurs in \<open>s\<close> as a contiguous substring.\<close>

fun includes_str :: "string \<Rightarrow> string \<Rightarrow> bool" where
  "includes_str [] sub = (sub = [])"
| "includes_str (c # cs) sub = (startsWith (c # cs) sub \<or> includes_str cs sub)"

subsection \<open>Dates\<close>

text \<open>
  The time-value arithmetic of ECMAScript (ECMA-262, Date objects). A time value is a
  number of milliseconds since 1 January 1970 UTC; days are counted from the same day.
\<close>

definition msPerDay :: int where
  "msPerDay = 86400000"

definition maxTime :: int where
  "maxTime = 8640000000000000"

definition Day :: "int \<Rightarrow> int" where
  "Day t = t div msPerDay"

definition DaysInYear :: "int \<Rightarrow> int" where
  "DaysInYear y =
     (if y mod 4 \<noteq> 0 then 365
      else if y mod 100 \<noteq> 0 then 366
      else if y mod 400 \<noteq> 0 then 365
      else 366)"

definition isLeapYear :: "int \<Rightarrow> bool" where
  "isLeapYear y = (DaysInYear y = 366)"

definition DayFromYear :: "int \<Rightarrow> int" where
  "DayFromYear y =
     365 * (y - 1970) + (y - 1969) div 4 - (y - 1901) div 100 + (y - 1601) div 400"

text \<open>
  \<^verbatim>\<open>YearFromTime(t)\<close> is specified as the largest year \<open>y\<close> whose first day is not
  after \<open>t\<close>. It is computed here from an estimate by the mean length of a year, which
  is off by at most one; lemma \<open>YearFromDay_bounds\<close> below shows that the result is the
  specified year.
\<close>

definition YearFromDay :: "int \<Rightarrow> int" where
  "YearFromDay d =
     (let y = 1970 + (400 * d) div 146097
      in if d < DayFromYear y then y - 1
         else if DayFromYear (y + 1) \<le> d then y + 1
         else y)"

definition YearFromTime :: "int \<Rightarrow> int" where
  "YearFromTime t = YearFromDay (Day t)"

definition InLeapYear :: "int \<Rightarrow> int" where
  "InLeapYear t = (if isLeapYear (YearFromTime t) then 1 else 0)"

definition DayWithinYear :: "int \<Rightarrow> int" where
  "DayWithinYear t = Day t - DayFromYear (YearFromTime t)"

definition MonthFromTime :: "int \<Rightarrow> int" where
  "MonthFromTime t =
     (let d = DayWithinYear t; l = InLeapYear t
      in if d < 31 then 0
         else if d < 59 + l then 1
         else if d < 90 + l then 2
         else if d < 120 + l then 3
         else if d < 151 + l then 4
         else if d < 181 + l then 5
         else if d < 212 + l then 6
         else if d < 243 + l then 7
         else if d < 273 + l then 8
         else if d < 304 + l then 9
         else if d < 334 + l then 10
         else 11)"

definition DateFromTime :: "int \<Rightarrow> int" where
  "DateFromTime t =
     (let d = DayWithinYear t; l = InLeapYear t; m = MonthFromTime t
      in if m = 0 then d + 1
         else if m = 1 then d - 30
         else if m = 2 then d - 58 - l
         else if m = 3 then d - 89 - l
         else if m = 4 then d - 119 - l
         else if m = 5 then d - 150 - l
         else if m = 6 then d - 180 - l
         else if m = 7 then d - 211 - l
         else if m = 8 then d - 242 - l
         else if m = 9 then d - 272 - l
         else if m = 10 then d - 303 - l
         else d - 333 - l)"

text \<open>The number of days of a year that lie before its month \<open>mn\<close> (0 to 11).\<close>

definition daysBeforeMonth :: "int \<Rightarrow> int \<Rightarrow> int" where
  "daysBeforeMonth y mn =
     (let l = (if isLeapYear y then 1 else 0)
      in if mn = 0 then 0
         else if mn = 1 then 31
         else if mn = 2 then 59 + l
         else if mn = 3 then 90 + l
         else if mn = 4 then 120 + l
         else if mn = 5 then 151 + l
         else if mn = 6 then 181 + l
         else if mn = 7 then 212 + l
         else if mn = 8 then 243 + l
         else if mn = 9 then 273 + l
         else if mn = 10 then 304 + l
         else 334 + l)"

text \<open>
  \<^verbatim>\<open>MakeDay(year, month, date)\<close>: the months beyond the year are carried into the
  year, the day number of the first of that month is found, and \<open>date - 1\<close> is added
  without any check against the length of the month.
\<close>

definition MakeDay :: "int \<Rightarrow> int \<Rightarrow> int \<Rightarrow> int" where
  "MakeDay year month date =
     (let ym = year + month div 12;
          mn = month mod 12
      in DayFromYear ym + daysBeforeMonth ym mn + date - 1)"

definition MakeTime :: "int \<Rightarrow> int \<Rightarrow> int \<Rightarrow> int \<Rightarrow> int" where
  "MakeTime hour minute sec ms = hour * 3600000 + minute * 60000 + sec * 1000 + ms"

definition MakeDate :: "int \<Rightarrow> int \<Rightarrow> int" where
  "MakeDate day time = day * msPerDay + time"

text \<open>\<^verbatim>\<open>TimeClip\<close>: a time value beyond the supported range becomes \<^verbatim>\<open>NaN\<close>.\<close>

definition TimeClip :: "int \<Rightarrow> int option" where
  "TimeClip t = (if \<bar>t\<bar> > maxTime then None else Some t)"

text \<open>\<^verbatim>\<open>MakeFullYear\<close>: a year from 0 to 99 is taken as a year of the 20th century.\<close>

definition MakeFullYear :: "int \<Rightarrow> int" where
  "MakeFullYear y = (if 0 \<le> y \<and> y \<le> 99 then 1900 + y else y)"

text \<open>
  What the program cannot fix about the platform it runs on:
  \<^item> \<open>LocalTZA\<close>, the offset of local time from UTC in milliseconds, as
    \<^verbatim>\<open>LocalTZA(t, isUTC)\<close> of ECMA-262: for a UTC time value \<open>t\<close> when \<open>isUTC\<close>
    holds, for a local time value \<open>t\<close> otherwise. It depends on the time value,
    since the offset of a time zone changes with its rules and with daylight saving.
  \<^item> \<open>DateParse\<close>, the implementation-defined \<^verbatim>\<open>Date.parse\<close> behind
    \<^verbatim>\<open>new Date(string)\<close>: a time value, or \<^term>\<open>None\<close> for \<^verbatim>\<open>NaN\<close>.
\<close>

record host =
  LocalTZA :: "int \<Rightarrow> bool \<Rightarrow> int"
  DateParse :: "string \<Rightarrow> int option"

definition LocalTime :: "host \<Rightarrow> int \<Rightarrow> int" where
  "LocalTime h t = t + LocalTZA h t True"

definition UTC :: "host \<Rightarrow> int \<Rightarrow> int" where
  "UTC h t = t - LocalTZA h t False"

text \<open>
  \<^verbatim>\<open>new Date(year, month, day, hours, minutes, seconds)\<close>, the arguments read in local
  time. A \<^verbatim>\<open>NaN\<close> argument or a result out of range gives an invalid Date
  (\<^term>\<open>None\<close>); nothing else does.
\<close>

definition newDate ::
  "host \<Rightarrow> int option \<Rightarrow> int option \<Rightarrow> int option \<Rightarrow> int \<Rightarrow> int \<Rightarrow> int \<Rightarrow> int option" where
  "newDate h year month day hours minutes seconds =
     (case (year, month, day) of
        (Some y, Some m, Some dt) \<Rightarrow>
          TimeClip (UTC h (MakeDate (MakeDay (MakeFullYear y) m dt)
                                    (MakeTime hours minutes seconds 0)))
      | _ \<Rightarrow> None)"

text \<open>\<^verbatim>\<open>new Date(string)\<close>.\<close>

definition newDateFromString :: "host \<Rightarrow> string \<Rightarrow> int option" where
  "newDateFromString h s = (case DateParse h s of None \<Rightarrow> None | Some t \<Rightarrow> TimeClip t)"

definition getFullYear :: "host \<Rightarrow> int \<Rightarrow> int" where
  "getFullYear h t = YearFromTime (LocalTime h t)"

definition getMonth :: "host \<Rightarrow> int \<Rightarrow> int" where
  "getMonth h t = MonthFromTime (LocalTime h t)"

definition getDate :: "host \<Rightarrow> int \<Rightarrow> int" where
  "getDate h t = DateFromTime (LocalTime h t)"

subsection \<open>parseTransferDate\<close>

text \<open>
  The time token, \<^verbatim>\<open>parts[1]\<close>, is read only when there are exactly two tokens and
  the second is not empty; its components default to 0 when they are missing or
  not a number (\<^verbatim>\<open>parseInt(...) || 0\<close>).
\<close>

definition parseTimeParts :: "string list \<Rightarrow> int \<times> int \<times> int" where
  "parseTimeParts parts =
     (if length parts = 2 \<and> truthy (parts ! 1) then
        (let timeParts = split CHR '':'' (parts ! 1)
         in if length timeParts \<ge> 2 then
              (or_zero (parseIntAt timeParts 0),
               or_zero (parseIntAt timeParts 1),
               or_zero (parseIntAt timeParts 2))
            else (0, 0, 0))
      else (0, 0, 0))"

text \<open>
  The statements of the \<^verbatim>\<open>try\<close> block (lines 21 to 61) on a string. Every
  operation in it is one of \<^verbatim>\<open>trim\<close>, \<^verbatim>\<open>split\<close>, \<^verbatim>\<open>parseInt\<close>, the Date
  constructor, \<^verbatim>\<open>getTime\<close> and \<^verbatim>\<open>isNaN\<close>, applied to strings and numbers; none of
  them throws.
\<close>

definition parseDateString :: "host \<Rightarrow> string \<Rightarrow> int option" where
  "parseDateString h s =
     (let parts = split CHR '' '' (trim s);
          fallback = newDateFromString h s
      in case parts of
           [] \<Rightarrow> fallback
         | p0 # _ \<Rightarrow>
             (case split CHR ''/'' p0 of
                [d, m, y] \<Rightarrow>
                  (let day = parseInt d;
                       month = map_option (\<lambda>v. v - 1) (parseInt m);
                       year = parseInt y;
                       (hours, minutes, seconds) = parseTimeParts parts
                   in newDate h year month day hours minutes seconds)
              | _ \<Rightarrow> fallback))"

text \<open>
  \<^verbatim>\<open>parseTransferDate\<close> on an argument of its declared type \<^verbatim>\<open>string | null\<close>:
  the falsy values \<^verbatim>\<open>null\<close> and \<^verbatim>\<open>""\<close> return \<^verbatim>\<open>null\<close> before the \<^verbatim>\<open>try\<close>
  block, any other string runs the block. This is the function the filter callback
  calls; its form with the \<^verbatim>\<open>try\<close> and \<^verbatim>\<open>catch\<close> on any value of the run time
  is \<open>parseTransferDate_dyn\<close> below.
\<close>

definition parseTransferDate :: "host \<Rightarrow> string option \<Rightarrow> int option" where
  "parseTransferDate h dateString =
     (case dateString of
        None \<Rightarrow> None
      | Some s \<Rightarrow>
          if \<not> truthy s then None
          else parseDateString h s)"

text \<open>
  The declared type is not checked at run time: the rows come from the data store
  as JSON and are cast without a test (\<^verbatim>\<open>return data as Transaction[]\<close>), so the
  argument can be any JSON value or \<^verbatim>\<open>undefined\<close>. On a value that is truthy but
  not a string, \<^verbatim>\<open>dateString.trim()\<close>, the first operation of the \<^verbatim>\<open>try\<close> block,
  throws a \<^verbatim>\<open>TypeError\<close> (there is no such method to call), and the \<^verbatim>\<open>catch\<close>
  clause returns \<^verbatim>\<open>null\<close>. A result is \<open>Inl\<close> of the exception thrown or \<open>Inr\<close> of
  the value returned.
\<close>

datatype js_error = TypeError

datatype js_value =
  JUndefined | JNull | JBool bool | JNumber rat | JString string | JObject

definition js_truthy :: "js_value \<Rightarrow> bool" where
  "js_truthy v =
     (case v of
        JUndefined \<Rightarrow> False
      | JNull \<Rightarrow> False
      | JBool b \<Rightarrow> b
      | JNumber n \<Rightarrow> n \<noteq> 0
      | JString s \<Rightarrow> truthy s
      | JObject \<Rightarrow> True)"

text \<open>\<^verbatim>\<open>try { body } catch { handler }\<close>.\<close>

definition try_catch :: "js_error + 'a \<Rightarrow> (js_error \<Rightarrow> js_error + 'a) \<Rightarrow> js_error + 'a" where
  "try_catch body handler = (case body of Inl e \<Rightarrow> handler e | Inr v \<Rightarrow> Inr v)"

text \<open>The \<^verbatim>\<open>try\<close> block on any value.\<close>

definition parseTransferDate_try :: "host \<Rightarrow> js_value \<Rightarrow> js_error + int option" where
  "parseTransferDate_try h dateString =
     (case dateString of
        JString s \<Rightarrow> Inr (parseDateString h s)
      | _ \<Rightarrow> Inl TypeError)"

definition parseTransferDate_dyn :: "host \<Rightarrow> js_value \<Rightarrow> js_error + int option" where
  "parseTransferDate_dyn h dateString =
     (if \<not> js_truthy dateString then Inr None
      else try_catch (parseTransferDate_try h dateString) (\<lambda>e. Inr None))"

subsection \<open>Transactions and filters\<close>

text \<open>The interface \<^verbatim>\<open>Transaction\<close> of \<^verbatim>\<open>src/lib/supabase.ts\<close>.\<close>

record Transaction =
  txn_id :: int
  bank_name :: "string option"
  sender :: string
  receiver :: "string option"
  transfer_time :: "string option"
  amount :: "string option"
  txn_hash :: string

text \<open>
  The interface \<^verbatim>\<open>FilterState\<close>; its fields \<^verbatim>\<open>sender\<close> and \<^verbatim>\<open>receiver\<close> are
  named \<open>sender_filter\<close> and \<open>receiver_filter\<close> here, apart from the fields of a
  transaction.
\<close>

record FilterState =
  month :: string
  date :: string
  sender_filter :: string
  receiver_filter :: string

definition combinedFilter :: "FilterState \<Rightarrow> FilterState \<Rightarrow> FilterState" where
  "combinedFilter totalAmountFilter avgAmountFilter =
     \<lparr> month = or_else (month totalAmountFilter) (month avgAmountFilter),
       date = or_else (date totalAmountFilter) (date avgAmountFilter),
       sender_filter = sender_filter avgAmountFilter,
       receiver_filter = [] \<rparr>"

text \<open>The two template literals of the filter callback.\<close>

definition monthYear :: "host \<Rightarrow> int \<Rightarrow> string" where
  "monthYear h transactionDate =
     numberToString (getFullYear h transactionDate) @ ''-'' @
     padStart 2 (numberToString (getMonth h transactionDate + 1))"

definition dateStr :: "host \<Rightarrow> int \<Rightarrow> string" where
  "dateStr h transactionDate =
     numberToString (getFullYear h transactionDate) @ ''-'' @
     padStart 2 (numberToString (getMonth h transactionDate + 1)) @ ''-'' @
     padStart 2 (numberToString (getDate h transactionDate))"

text \<open>
  The callback given to \<^verbatim>\<open>transactions.filter\<close>. Each of its four tests returns
  \<^verbatim>\<open>false\<close> early; a test is skipped when its filter field is empty, and the month
  and date tests also when the date is \<^verbatim>\<open>null\<close>, the receiver test also when the
  receiver is \<^verbatim>\<open>null\<close> or empty.
\<close>

definition keepTransaction :: "host \<Rightarrow> FilterState \<Rightarrow> Transaction \<Rightarrow> bool" where
  "keepTransaction h flt transaction =
     (let transactionDate = parseTransferDate h (transfer_time transaction)
      in if truthy (month flt) \<and>
            (case transactionDate of None \<Rightarrow> False
             | Some t \<Rightarrow> monthYear h t \<noteq> month flt) then False
         else if truthy (date flt) \<and>
            (case transactionDate of None \<Rightarrow> False
             | Some t \<Rightarrow> dateStr h t \<noteq> date flt) then False
         else if truthy (sender_filter flt) \<and>
            \<not> includes_str (toLowerCase (sender transaction))
                             (toLowerCase (sender_filter flt)) then False
         else if truthy (receiver_filter flt) \<and>
            (case receiver transaction of None \<Rightarrow> False
             | Some r \<Rightarrow> truthy r \<and>
                 \<not> includes_str (toLowerCase r) (toLowerCase (receiver_filter flt))) then False
         else True)"

definition filterTransactions :: "host \<Rightarrow> Transaction list \<Rightarrow> FilterState \<Rightarrow> Transaction list" where
  "filterTransactions h transactions flt = filter (keepTransaction h flt) transactions"

subsection \<open>Aggregates\<close>

text \<open>
  The Numbers of the aggregates. A finite value is kept exactly, as a rational: the
  rounding and the overflow of doubles are not modelled. \<^verbatim>\<open>NaN\<close> and the
  infinities behave as in IEEE 754.
\<close>

datatype number = NaN | Finite rat | PosInfinity | NegInfinity

fun add :: "number \<Rightarrow> number \<Rightarrow> number" where
  "add NaN _ = NaN"
| "add _ NaN = NaN"
| "add (Finite a) (Finite b) = Finite (a + b)"
| "add (Finite _) i = i"
| "add i (Finite _) = i"
| "add PosInfinity PosInfinity = PosInfinity"
| "add NegInfinity NegInfinity = NegInfinity"
| "add PosInfinity NegInfinity = NaN"
| "add NegInfinity PosInfinity = NaN"

text \<open>Division by the length of an array that is not empty.\<close>

fun divide_by :: "number \<Rightarrow> nat \<Rightarrow> number" where
  "divide_by (Finite a) n = Finite (a / of_nat n)"
| "divide_by x n = x"

text \<open>An exponent part \<^verbatim>\<open>e\<close>, sign, digits; 0 when the text does not start with one.\<close>

definition exponentPart :: "string \<Rightarrow> int" where
  "exponentPart r =
     (case r of
        [] \<Rightarrow> 0
      | c # cs \<Rightarrow>
          if c = CHR ''e'' \<or> c = CHR ''E'' then
            (let neg = (case cs of s # _ \<Rightarrow> s = CHR ''-'' | [] \<Rightarrow> False);
                 ds = takeWhile isDigit
                        (case cs of s # cs' \<Rightarrow> if s = CHR ''+'' \<or> s = CHR ''-'' then cs' else cs
                         | [] \<Rightarrow> cs)
             in if ds = [] then 0
                else if neg then - digitsVal ds else digitsVal ds)
          else 0)"

definition pow10 :: "int \<Rightarrow> rat" where
  "pow10 e = (if e < 0 then 1 / 10 ^ nat (- e) else 10 ^ nat e)"

text \<open>
  \<^verbatim>\<open>parseFloat(s)\<close>: leading white space is skipped and the longest prefix that is a
  decimal literal is read (sign, \<^verbatim>\<open>Infinity\<close> or digits with an optional fraction
  and exponent); when there is none the result is \<^verbatim>\<open>NaN\<close>.
\<close>

definition parseFloat :: "string \<Rightarrow> number" where
  "parseFloat s =
     (let t = trimStart s;
          neg = (case t of c # _ \<Rightarrow> c = CHR ''-'' | [] \<Rightarrow> False);
          r = (case t of c # cs \<Rightarrow> if c = CHR ''+'' \<or> c = CHR ''-'' then cs else t | [] \<Rightarrow> t)
      in if startsWith r ''Infinity'' then (if neg then NegInfinity else PosInfinity)
         else
           (let ip = takeWhile isDigit r;
                r1 = dropWhile isDigit r;
                fp = (case r1 of c # cs \<Rightarrow> if c = CHR ''.'' then takeWhile isDigit cs else []
                      | [] \<Rightarrow> []);
                r2 = (case r1 of c # cs \<Rightarrow> if c = CHR ''.'' then dropWhile isDigit cs else r1
                      | [] \<Rightarrow> [])
            in if ip = [] \<and> fp = [] then NaN
               else
                 (let m = of_int (digitsVal (ip @ fp)) / 10 ^ length fp * pow10 (exponentPart r2)
                  in Finite (if neg then - m else m))))"

text \<open>\<^verbatim>\<open>t.amount || "0"\<close>: \<^verbatim>\<open>null\<close> and the empty string give \<^verbatim>\<open>"0"\<close>.\<close>

definition amountOrZero :: "Transaction \<Rightarrow> string" where
  "amountOrZero t = (case amount t of None \<Rightarrow> ''0'' | Some a \<Rightarrow> or_else a ''0'')"

text \<open>The \<^verbatim>\<open>reduce\<close> of both statistics, from the left with the initial value 0.\<close>

definition sumAmounts :: "Transaction list \<Rightarrow> number" where
  "sumAmounts filtered = foldl (\<lambda>sum t. add sum (parseFloat (amountOrZero t))) (Finite 0) filtered"

text \<open>
  \<^verbatim>\<open>totalAmountStats\<close> and \<^verbatim>\<open>avgAmountStats\<close>, as the Number each of them computes;
  the formatting by \<^verbatim>\<open>toLocaleString\<close> that follows is not part of the model.
\<close>

definition totalAmountStats :: "host \<Rightarrow> Transaction list \<Rightarrow> FilterState \<Rightarrow> number" where
  "totalAmountStats h transactions totalAmountFilter =
     (let filtered = filterTransactions h transactions totalAmountFilter;
          total = sumAmounts filtered
      in total)"

definition avgAmountStats :: "host \<Rightarrow> Transaction list \<Rightarrow> FilterState \<Rightarrow> number" where
  "avgAmountStats h transactions avgAmountFilter =
     (let filtered = filterTransactions h transactions avgAmountFilter;
          total = sumAmounts filtered;
          avg = (if length filtered > 0 then divide_by total (length filtered) else Finite 0)
      in avg)"

subsection \<open>The calendar and the inputs of the statements\<close>

text \<open>
  The Gregorian calendar, to say which day, month and year form a date; and the text
  \<^verbatim>\<open>DD/MM/YYYY\<close> and \<^verbatim>\<open>HH:MM:SS\<close> of given numbers. The program uses none of these:
  they describe inputs in the statements below.
\<close>

definition daysInMonth :: "int \<Rightarrow> int \<Rightarrow> int" where
  "daysInMonth y m =
     (if m = 2 then (if isLeapYear y then 29 else 28)
      else if m = 4 \<or> m = 6 \<or> m = 9 \<or> m = 11 then 30
      else 31)"

definition validDate :: "int \<Rightarrow> int \<Rightarrow> int \<Rightarrow> bool" where
  "validDate y m d = (1 \<le> m \<and> m \<le> 12 \<and> 1 \<le> d \<and> d \<le> daysInMonth y m)"

definition validTime :: "int \<Rightarrow> int \<Rightarrow> int \<Rightarrow> bool" where
  "validTime hh mm ss = (0 \<le> hh \<and> hh < 24 \<and> 0 \<le> mm \<and> mm < 60 \<and> 0 \<le> ss \<and> ss < 60)"

definition dateText :: "int \<Rightarrow> int \<Rightarrow> int \<Rightarrow> string" where
  "dateText d m y =
     padStart 2 (numberToString d) @ ''/'' @ padStart 2 (numberToString m) @ ''/'' @
     padStart 4 (numberToString y)"

definition timeText :: "int \<Rightarrow> int \<Rightarrow> int \<Rightarrow> string" where
  "timeText hh mm ss =
     padStart 2 (numberToString hh) @ '':'' @ padStart 2 (numberToString mm) @ '':'' @
     padStart 2 (numberToString ss)"

text \<open>The text \<^verbatim>\<open>HH:MM\<close>, a time token without seconds.\<close>

definition timeTextShort :: "int \<Rightarrow> int \<Rightarrow> string" where
  "timeTextShort hh mm = padStart 2 (numberToString hh) @ '':'' @ padStart 2 (numberToString mm)"

definition emptyFilter :: FilterState where
  "emptyFilter = \<lparr> month = [], date = [], sender_filter = [], receiver_filter = [] \<rparr>"

text \<open>
  The time zone \<^verbatim>\<open>Asia/Ho_Chi_Minh\<close> by the rules of the IANA time zone
  database: 7:06:30 until 1911, then +07, with the years at +08 and +09 in between
  (the last change was from +08 back to +07 on 13 June 1975). \<open>hcmOffset\<close> is the
  offset at a UTC time value. \<open>hcmOffsetLocal\<close> is the offset for a local time
  value; a local time that a change skips or repeats takes the offset from before
  the change, as ECMA-262 asks.
\<close>

definition hcmOffset :: "int \<Rightarrow> int" where
  "hcmOffset t =
     (if t < - 1851577590000 then 25590000
      else if t < - 852105600000 then 25200000
      else if t < - 782643600000 then 28800000
      else if t < - 767869200000 then 32400000
      else if t < - 718095600000 then 25200000
      else if t < - 457772400000 then 28800000
      else if t < - 315648000000 then 25200000
      else if t < 171820800000 then 28800000
      else 25200000)"

definition hcmOffsetLocal :: "int \<Rightarrow> int" where
  "hcmOffsetLocal t =
     (if t < - 1851552000000 then 25590000
      else if t < - 852076800000 then 25200000
      else if t < - 782611200000 then 28800000
      else if t < - 767836800000 then 32400000
      else if t < - 718066800000 then 25200000
      else if t < - 457743600000 then 28800000
      else if t < - 315619200000 then 25200000
      else if t < 171849600000 then 28800000
      else 25200000)"

text \<open>A host in Viet Nam, in that time zone, whose \<^verbatim>\<open>Date.parse\<close> accepts nothing.\<close>

definition vnHost :: host where
  "vnHost =
     \<lparr> LocalTZA = (\<lambda>t isUTC. if isUTC then hcmOffset t else hcmOffsetLocal t),
       DateParse = (\<lambda>_. None) \<rparr>"

definition tx :: "string \<Rightarrow> string option \<Rightarrow> string option \<Rightarrow> string option \<Rightarrow> Transaction" where
  "tx s r tt a =
     \<lparr> txn_id = 1, bank_name = None, sender = s, receiver = r, transfer_time = tt,
       amount = a, txn_hash = ''h'' \<rparr>"

section \<open>Properties\<close>

subsection \<open>Days and years\<close>

text \<open>
  Quotients by a positive constant, one step at a time and within bounds.
\<close>

lemma div_step: "(k::int) > 0 \<Longrightarrow> (a + 1) div k = a div k + (if (a + 1) mod k = 0 then 1 else 0)"
proof -
  assume k: "k > 0"
  define q where "q = a div k"
  define r where "r = a mod k"
  have a: "a = k * q + r" and r: "0 \<le> r" "r < k"
    using k by (simp_all add: q_def r_def)
  show ?thesis
  proof (cases "r + 1 = k")
    case True
    then have "a + 1 = k * (q + 1)" using a by (simp add: algebra_simps)
    then show ?thesis using k by (simp add: q_def)
  next
    case False
    then have r1: "0 \<le> r + 1" "r + 1 < k" "r + 1 \<noteq> 0" using r by auto
    have e: "a + 1 = (r + 1) + q * k" using a by (simp add: algebra_simps)
    have "(a + 1) div k = q" unfolding e using r1 k by (simp add: div_pos_pos_trivial)
    moreover have "(a + 1) mod k = r + 1" unfolding e using r1 k by (simp add: mod_pos_pos_trivial)
    ultimately show ?thesis using r1(3) by (simp add: q_def)
  qed
qed

lemma div_bounds: "(0::int) < k \<Longrightarrow> k * (x div k) \<le> x \<and> x < k * (x div k) + k"
proof -
  assume k: "0 < k"
  have "x = k * (x div k) + x mod k" by simp
  moreover have "0 \<le> x mod k" "x mod k < k" using k by simp_all
  ultimately show ?thesis by linarith
qed

lemma mod_shift: "((y::int) - c * k) mod k = y mod k"
proof -
  have "(y - c * k) mod k = (y + (- c) * k) mod k" by simp
  also have "\<dots> = y mod k" by (rule mod_mult_self1)
  finally show ?thesis .
qed

text \<open>
  The first day of the next year is the first day of this year plus its length.
\<close>

lemma DayFromYear_Suc: "DayFromYear (y + 1) = DayFromYear y + DaysInYear y"
proof -
  have e4: "y + 1 - 1969 = (y - 1969) + 1" "y - 1969 + 1 = y - 492 * 4" by simp_all
  have e100: "y + 1 - 1901 = (y - 1901) + 1" "y - 1901 + 1 = y - 19 * 100" by simp_all
  have e400: "y + 1 - 1601 = (y - 1601) + 1" "y - 1601 + 1 = y - 4 * 400" by simp_all
  have m4: "(y - 1969 + 1) mod 4 = y mod 4" unfolding e4(2) by (rule mod_shift)
  have m100: "(y - 1901 + 1) mod 100 = y mod 100" unfolding e100(2) by (rule mod_shift)
  have m400: "(y - 1601 + 1) mod 400 = y mod 400" unfolding e400(2) by (rule mod_shift)
  have "(y - 1969 + 1) div 4 = (y - 1969) div 4 + (if (y - 1969 + 1) mod 4 = 0 then 1 else 0)"
    by (rule div_step) simp
  then have a: "(y + 1 - 1969) div 4 = (y - 1969) div 4 + (if y mod 4 = 0 then 1 else 0)"
    unfolding e4(1) m4 .
  have "(y - 1901 + 1) div 100 = (y - 1901) div 100 + (if (y - 1901 + 1) mod 100 = 0 then 1 else 0)"
    by (rule div_step) simp
  then have b: "(y + 1 - 1901) div 100 = (y - 1901) div 100 + (if y mod 100 = 0 then 1 else 0)"
    unfolding e100(1) m100 .
  have "(y - 1601 + 1) div 400 = (y - 1601) div 400 + (if (y - 1601 + 1) mod 400 = 0 then 1 else 0)"
    by (rule div_step) simp
  then have c: "(y + 1 - 1601) div 400 = (y - 1601) div 400 + (if y mod 400 = 0 then 1 else 0)"
    unfolding e400(1) m400 .
  have d1: "y mod 100 = 0" if "y mod 400 = 0"
  proof -
    from that obtain q where "y = 400 * q" by (auto simp: mod_eq_0_iff_dvd)
    then have "y = 100 * (4 * q)" by simp
    then show ?thesis by (simp only: mod_mult_self1_is_0)
  qed
  have d2: "y mod 4 = 0" if "y mod 100 = 0"
  proof -
    from that obtain q where "y = 100 * q" by (auto simp: mod_eq_0_iff_dvd)
    then have "y = 4 * (25 * q)" by simp
    then show ?thesis by (simp only: mod_mult_self1_is_0)
  qed
  show ?thesis
  proof (cases "y mod 4 = 0")
    case False
    with d1 d2 have "y mod 100 \<noteq> 0" "y mod 400 \<noteq> 0" by auto
    with False show ?thesis
      unfolding DayFromYear_def DaysInYear_def a b c by simp
  next
    case True
    show ?thesis
    proof (cases "y mod 100 = 0")
      case False
      with d1 have "y mod 400 \<noteq> 0" by auto
      with True False show ?thesis
        unfolding DayFromYear_def DaysInYear_def a b c by simp
    next
      case h: True
      with True show ?thesis
        unfolding DayFromYear_def DaysInYear_def a b c by (cases "y mod 400 = 0") simp_all
    qed
  qed
qed

text \<open>
  The first day of a year lies within two days of the mean year length times the
  number of years since 1970, so the estimate of \<open>YearFromDay\<close> misses by at most
  one year, and its result is the year that contains the day.
\<close>

lemma DaysInYear_pos: "365 \<le> DaysInYear y \<and> DaysInYear y \<le> 366"
  by (simp add: DaysInYear_def)

lemma DayFromYear_mono: "y \<le> y' \<Longrightarrow> DayFromYear y \<le> DayFromYear y'"
proof (induction y' rule: int_ge_induct)
  case base
  show ?case by simp
next
  case (step i)
  have "DayFromYear i \<le> DayFromYear (i + 1)"
    using DayFromYear_Suc [of i] DaysInYear_pos [of i] by linarith
  with step show ?case by linarith
qed

lemma DayFromYear_approx:
  "146097 * y - 287811697 < 400 * DayFromYear y"
  "400 * DayFromYear y < 146097 * y - 287810497"
proof -
  define a where "a = (y - 1969) div 4"
  define b where "b = (y - 1901) div 100"
  define c where "c = (y - 1601) div 400"
  have a: "4 * a \<le> y - 1969" "y - 1969 < 4 * a + 4"
    using div_bounds [of 4 "y - 1969"] by (simp_all add: a_def)
  have b: "100 * b \<le> y - 1901" "y - 1901 < 100 * b + 100"
    using div_bounds [of 100 "y - 1901"] by (simp_all add: b_def)
  have c: "400 * c \<le> y - 1601" "y - 1601 < 400 * c + 400"
    using div_bounds [of 400 "y - 1601"] by (simp_all add: c_def)
  have "DayFromYear y = 365 * y - 719050 + a - b + c"
    by (simp add: DayFromYear_def a_def b_def c_def)
  then have d: "400 * DayFromYear y = 146000 * y - 287620000 + 400 * a - 400 * b + 400 * c"
    by simp
  show "146097 * y - 287811697 < 400 * DayFromYear y"
    unfolding d using a b c by linarith
  show "400 * DayFromYear y < 146097 * y - 287810497"
    unfolding d using a b c by linarith
qed

lemma YearFromDay_bounds:
  "DayFromYear (YearFromDay d) \<le> d \<and> d < DayFromYear (YearFromDay d + 1)"
proof -
  define k where "k = (400 * d) div 146097"
  define y where "y = 1970 + k"
  have q: "146097 * k \<le> 400 * d" "400 * d < 146097 * k + 146097"
    using div_bounds [of 146097 "400 * d"] by (simp_all add: k_def)
  define lo where "lo = DayFromYear (y - 1)"
  define hi where "hi = DayFromYear (y + 1 + 1)"
  have "400 * lo < 146097 * (y - 1) - 287810497"
    unfolding lo_def by (rule DayFromYear_approx)
  then have "400 * lo < 146097 * k - 145504" by (simp add: y_def)
  then have lo: "lo \<le> d" using q(1) by linarith
  have "146097 * (y + 1 + 1) - 287811697 < 400 * hi"
    unfolding hi_def by (rule DayFromYear_approx)
  then have "146097 * k + 291587 < 400 * hi" by (simp add: y_def)
  then have hi: "d < hi" using q(2) by linarith
  have s: "y - 1 + 1 = y" by simp
  have yd: "1970 + 400 * d div 146097 = y" by (simp add: y_def k_def)
  show ?thesis
    unfolding YearFromDay_def Let_def yd
    using lo hi by (simp add: s lo_def hi_def)
qed

lemma YearFromDay_unique:
  assumes "DayFromYear y \<le> d" and "d < DayFromYear (y + 1)"
  shows "YearFromDay d = y"
proof -
  let ?z = "YearFromDay d"
  have z: "DayFromYear ?z \<le> d" "d < DayFromYear (?z + 1)"
    using YearFromDay_bounds [of d] by simp_all
  have "\<not> ?z < y"
  proof
    assume "?z < y"
    then have "DayFromYear (?z + 1) \<le> DayFromYear y" by (intro DayFromYear_mono) simp
    with z(2) assms(1) show False by linarith
  qed
  moreover have "\<not> y < ?z"
  proof
    assume "y < ?z"
    then have "DayFromYear (y + 1) \<le> DayFromYear ?z" by (intro DayFromYear_mono) simp
    with z(1) assms(2) show False by linarith
  qed
  ultimately show ?thesis by linarith
qed

text \<open>
  The time value made from a date of the calendar and a time within the day gives
  that year, month and day back.
\<close>

lemma DaysInYear_cases: "DaysInYear y = (if isLeapYear y then 366 else 365)"
  by (simp add: isLeapYear_def DaysInYear_def)

lemma Day_MakeDate: "0 \<le> tod \<Longrightarrow> tod < msPerDay \<Longrightarrow> Day (MakeDate day tod) = day"
  by (simp add: Day_def MakeDate_def msPerDay_def div_pos_pos_trivial)

lemma month_cases:
  "1 \<le> (m::int) \<Longrightarrow> m \<le> 12 \<Longrightarrow>
   m = 1 \<or> m = 2 \<or> m = 3 \<or> m = 4 \<or> m = 5 \<or> m = 6 \<or> m = 7 \<or> m = 8 \<or> m = 9 \<or> m = 10 \<or> m = 11 \<or> m = 12"
  by arith

lemma MakeDay_valid:
  assumes "validDate y m d"
  shows "MakeDay y (m - 1) d = DayFromYear y + daysBeforeMonth y (m - 1) + d - 1"
proof -
  have "0 \<le> m - 1" "m - 1 < 12" using assms by (simp_all add: validDate_def)
  then have "(m - 1) div 12 = 0" "(m - 1) mod 12 = m - 1"
    by (simp_all add: div_pos_pos_trivial mod_pos_pos_trivial)
  then show ?thesis by (simp add: MakeDay_def)
qed

lemma dayWithinYear_valid:
  assumes "validDate y m d"
  shows "0 \<le> daysBeforeMonth y (m - 1) + d - 1"
    and "daysBeforeMonth y (m - 1) + d - 1 < DaysInYear y"
proof -
  have m: "1 \<le> m" "m \<le> 12" and d: "1 \<le> d" "d \<le> daysInMonth y m"
    using assms by (simp_all add: validDate_def)
  from month_cases [OF m] d(1)
  show "0 \<le> daysBeforeMonth y (m - 1) + d - 1"
    by (elim disjE; simp add: daysBeforeMonth_def)
  from month_cases [OF m] d(2)
  show "daysBeforeMonth y (m - 1) + d - 1 < DaysInYear y"
    by (cases "isLeapYear y"; elim disjE; simp add: daysBeforeMonth_def daysInMonth_def DaysInYear_cases)
qed

lemma fields_of_valid:
  assumes v: "validDate y m d" and tod: "0 \<le> tod" "tod < msPerDay"
  defines "t \<equiv> MakeDate (MakeDay y (m - 1) d) tod"
  shows "YearFromTime t = y" and "MonthFromTime t = m - 1" and "DateFromTime t = d"
proof -
  define w where "w = daysBeforeMonth y (m - 1) + d - 1"
  have w: "0 \<le> w" "w < DaysInYear y"
    using dayWithinYear_valid [OF v] by (simp_all add: w_def)
  have day: "Day t = DayFromYear y + w"
    unfolding t_def using Day_MakeDate [OF tod] MakeDay_valid [OF v] by (simp add: w_def)
  show yr: "YearFromTime t = y"
    unfolding YearFromTime_def day
    by (rule YearFromDay_unique) (use w DayFromYear_Suc [of y] in simp_all)
  have dwy: "DayWithinYear t = w" by (simp add: DayWithinYear_def yr day)
  have leap: "InLeapYear t = (if isLeapYear y then 1 else 0)" by (simp add: InLeapYear_def yr)
  have m: "1 \<le> m" "m \<le> 12" and d: "1 \<le> d" "d \<le> daysInMonth y m"
    using v by (simp_all add: validDate_def)
  from month_cases [OF m] d
  show mo: "MonthFromTime t = m - 1"
    unfolding MonthFromTime_def dwy leap Let_def w_def
    by (cases "isLeapYear y"; elim disjE; simp add: daysBeforeMonth_def daysInMonth_def)
  from month_cases [OF m] d
  show "DateFromTime t = d"
    unfolding DateFromTime_def mo dwy leap Let_def w_def
    by (cases "isLeapYear y"; elim disjE; simp add: daysBeforeMonth_def)
qed

lemma MakeTime_valid:
  assumes "validTime hh mm ss"
  shows "0 \<le> MakeTime hh mm ss 0" and "MakeTime hh mm ss 0 < msPerDay"
  using assms by (simp_all add: validTime_def MakeTime_def msPerDay_def)

lemma DayFromYear_range:
  assumes "0 \<le> y" "y \<le> 9999"
  shows "- 720000 \<le> DayFromYear y" and "DayFromYear y \<le> 3000000"
  using DayFromYear_approx [of y] assms by linarith+

text \<open>The year, month and day of a time value depend on its day only.\<close>

lemma same_day_fields:
  assumes "Day t = Day t'"
  shows "YearFromTime t = YearFromTime t'" and "MonthFromTime t = MonthFromTime t'"
    and "DateFromTime t = DateFromTime t'"
proof -
  show y: "YearFromTime t = YearFromTime t'" by (simp add: YearFromTime_def assms)
  have w: "DayWithinYear t = DayWithinYear t'" by (simp add: DayWithinYear_def y assms)
  have l: "InLeapYear t = InLeapYear t'" by (simp add: InLeapYear_def y)
  show m: "MonthFromTime t = MonthFromTime t'" by (simp add: MonthFromTime_def w l)
  show "DateFromTime t = DateFromTime t'" by (simp add: DateFromTime_def w l m)
qed

text \<open>And the day is given by the year, month and day of the month.\<close>

lemma day_of_fields:
  "Day t = DayFromYear (YearFromTime t)
           + daysBeforeMonth (YearFromTime t) (MonthFromTime t) + DateFromTime t - 1"
proof -
  define w where "w = DayWithinYear t"
  define l where "l = InLeapYear t"
  define k where "k = MonthFromTime t"
  have l': "(if isLeapYear (YearFromTime t) then 1 else 0) = l" by (simp add: l_def InLeapYear_def)
  have k: "k = (if w < 31 then 0
         else if w < 59 + l then 1
         else if w < 90 + l then 2
         else if w < 120 + l then 3
         else if w < 151 + l then 4
         else if w < 181 + l then 5
         else if w < 212 + l then 6
         else if w < 243 + l then 7
         else if w < 273 + l then 8
         else if w < 304 + l then 9
         else if w < 334 + l then 10
         else 11)"
    by (simp add: k_def MonthFromTime_def w_def l_def)
  then have kr: "k = 0 \<or> k = 1 \<or> k = 2 \<or> k = 3 \<or> k = 4 \<or> k = 5 \<or> k = 6 \<or> k = 7 \<or> k = 8 \<or> k = 9
      \<or> k = 10 \<or> k = 11"
    by presburger
  have "daysBeforeMonth (YearFromTime t) k + DateFromTime t - 1 = w"
    unfolding daysBeforeMonth_def DateFromTime_def Let_def l' k_def [symmetric] w_def [symmetric]
      l_def [symmetric]
    using kr by (elim disjE) simp_all
  moreover have "Day t = DayFromYear (YearFromTime t) + w" by (simp add: w_def DayWithinYear_def)
  ultimately show ?thesis by (simp add: k_def)
qed

text \<open>
  A time value reads as a given date of the calendar exactly when its local time lies
  on the day of that date.
\<close>

lemma fields_iff_day:
  assumes v: "validDate y m d" and tod: "0 \<le> tod" "tod < msPerDay"
  shows "(getFullYear h t = y \<and> getMonth h t + 1 = m \<and> getDate h t = d)
     \<longleftrightarrow> Day (LocalTime h t) = Day (MakeDate (MakeDay y (m - 1) d) tod)"
proof
  let ?x = "MakeDate (MakeDay y (m - 1) d) tod"
  assume "Day (LocalTime h t) = Day ?x"
  from same_day_fields [OF this] fields_of_valid [OF v tod]
  show "getFullYear h t = y \<and> getMonth h t + 1 = m \<and> getDate h t = d"
    by (simp add: getFullYear_def getMonth_def getDate_def)
next
  let ?x = "MakeDate (MakeDay y (m - 1) d) tod"
  assume a: "getFullYear h t = y \<and> getMonth h t + 1 = m \<and> getDate h t = d"
  then have f: "YearFromTime (LocalTime h t) = y" "MonthFromTime (LocalTime h t) = m - 1"
    "DateFromTime (LocalTime h t) = d"
    by (simp_all add: getFullYear_def getMonth_def getDate_def)
  have "Day (LocalTime h t) = DayFromYear y + daysBeforeMonth y (m - 1) + d - 1"
    using day_of_fields [of "LocalTime h t"] by (simp add: f)
  also have "\<dots> = Day ?x"
    using Day_MakeDate [OF tod] MakeDay_valid [OF v] by simp
  finally show "Day (LocalTime h t) = Day ?x" .
qed

lemma newDate_valid:
  assumes "validDate y m d" and "100 \<le> y" and "validTime hh mm ss"
    and "x = MakeDate (MakeDay y (m - 1) d) (MakeTime hh mm ss 0)"
  shows "(\<exists>t. newDate h (Some y) (Some (m - 1)) (Some d) hh mm ss = Some t
           \<and> getFullYear h t = y \<and> getMonth h t + 1 = m \<and> getDate h t = d)
     \<longleftrightarrow> (\<bar>UTC h x\<bar> \<le> maxTime \<and> Day (LocalTime h (UTC h x)) = Day x)"
proof -
  have "MakeFullYear y = y" using assms(2) by (simp add: MakeFullYear_def)
  then have n: "newDate h (Some y) (Some (m - 1)) (Some d) hh mm ss = TimeClip (UTC h x)"
    by (simp add: newDate_def assms(4))
  note f = fields_iff_day [OF assms(1) MakeTime_valid [OF assms(3)], folded assms(4)]
  show ?thesis
  proof (cases "\<bar>UTC h x\<bar> \<le> maxTime")
    case True
    then have "TimeClip (UTC h x) = Some (UTC h x)" by (simp add: TimeClip_def)
    then show ?thesis using True f [of h "UTC h x"] by (simp add: n)
  next
    case False
    then have "TimeClip (UTC h x) = None" by (simp add: TimeClip_def)
    then show ?thesis using False by (simp add: n)
  qed
qed

text \<open>
  The condition holds when the local time exists in the time zone of the host and
  the offset for it is at most a day, for the years 0 to 9999.
\<close>

lemma existing_local_time:
  assumes v: "validDate y m d" and y: "0 \<le> y" "y \<le> 9999" and "validTime hh mm ss"
    and x: "x = MakeDate (MakeDay y (m - 1) d) (MakeTime hh mm ss 0)"
    and z: "\<bar>LocalTZA h x False\<bar> \<le> msPerDay"
    and e: "LocalTime h (UTC h x) = x"
  shows "\<bar>UTC h x\<bar> \<le> maxTime \<and> Day (LocalTime h (UTC h x)) = Day x"
proof -
  define w where "w = daysBeforeMonth y (m - 1) + d - 1"
  define dy where "dy = DayFromYear y"
  define tod where "tod = MakeTime hh mm ss 0"
  define c where "c = LocalTZA h x False"
  have w: "0 \<le> w" "w < 366"
    using dayWithinYear_valid [OF v] DaysInYear_pos [of y] by (simp_all add: w_def)
  have dy: "- 720000 \<le> dy" "dy \<le> 3000000"
    using DayFromYear_range [OF y] by (simp_all add: dy_def)
  have t: "0 \<le> tod" "tod < 86400000"
    using MakeTime_valid [OF assms(4)] by (simp_all add: tod_def msPerDay_def)
  have c: "- 86400000 \<le> c" "c \<le> 86400000" using z by (simp_all add: c_def msPerDay_def)
  have "x = (dy + w) * 86400000 + tod"
    by (simp add: x MakeDate_def MakeDay_valid [OF v] w_def dy_def tod_def msPerDay_def)
  then have xe: "x = 86400000 * dy + 86400000 * w + tod" by (simp add: algebra_simps)
  have u: "UTC h x = x - c" by (simp add: UTC_def c_def)
  have "- 8640000000000000 \<le> x - c" "x - c \<le> 8640000000000000"
    unfolding xe using w dy t c by linarith+
  then have "\<bar>UTC h x\<bar> \<le> maxTime" by (simp add: u maxTime_def)
  then show ?thesis by (simp add: e)
qed

text \<open>In a time zone of constant offset every local time exists.\<close>

lemma constant_offset_local_time:
  assumes "\<And>t b. LocalTZA h t b = c"
  shows "LocalTime h (UTC h x) = x"
  by (simp add: LocalTime_def UTC_def assms)


subsection \<open>Digits, splitting and trimming\<close>

lemma isDigit_not_special:
  assumes "isDigit c"
  shows "\<not> isWhiteSpace c" "c \<noteq> CHR ''/''" "c \<noteq> CHR '' ''" "c \<noteq> CHR '':''"
    "c \<noteq> CHR ''+''" "c \<noteq> CHR ''-''"
  using assms by (auto simp: isDigit_def isWhiteSpace_def)

lemma digit_char:
  assumes "r < 10"
  shows "isDigit (char_of (48 + r))" and "digitVal (char_of (48 + r)) = int r"
  using assms by (simp_all add: isDigit_def digitVal_def)

lemma natToString_digits: "\<forall>c \<in> set (natToString n). isDigit c"
proof (induction n rule: natToString.induct)
  case (1 n)
  show ?case
  proof (cases "n < 10")
    case True
    then show ?thesis by (subst natToString.simps) (simp add: digit_char)
  next
    case False
    have "n mod 10 < 10" by simp
    then have "isDigit (char_of (48 + n mod 10))" by (rule digit_char)
    with False 1 show ?thesis by (subst natToString.simps) simp
  qed
qed

lemma natToString_nonempty: "natToString n \<noteq> []"
  by (subst natToString.simps) simp

lemma digitsVal_append: "digitsVal (a @ b) = foldl (\<lambda>a c. 10 * a + digitVal c) (digitsVal a) b"
  by (simp add: digitsVal_def)

lemma digitsVal_snoc: "digitsVal (ds @ [c]) = 10 * digitsVal ds + digitVal c"
  by (simp add: digitsVal_def)

lemma digitsVal_natToString: "digitsVal (natToString n) = int n"
proof (induction n rule: natToString.induct)
  case (1 n)
  show ?case
  proof (cases "n < 10")
    case True
    then show ?thesis
      by (subst natToString.simps) (simp add: digitsVal_def digit_char)
  next
    case False
    have "n mod 10 < 10" by simp
    then have d: "digitVal (char_of (48 + n mod 10)) = int (n mod 10)" by (rule digit_char)
    have "digitsVal (natToString n) = 10 * int (n div 10) + int (n mod 10)"
      using False 1 by (subst natToString.simps) (simp add: digitsVal_snoc d)
    also have "\<dots> = int n" by presburger
    finally show ?thesis .
  qed
qed

lemma digitsVal_zeros: "digitsVal (replicate k CHR ''0'' @ ds) = digitsVal ds"
proof -
  have "foldl (\<lambda>a c. 10 * a + digitVal c) 0 (replicate k CHR ''0'' @ ds)
        = foldl (\<lambda>a c. 10 * a + digitVal c) 0 ds"
    by (induction k) (simp_all add: digitVal_def)
  then show ?thesis by (simp add: digitsVal_def)
qed

lemma pad_digits:
  assumes "0 \<le> n"
  shows "\<forall>c \<in> set (padStart k (numberToString n)). isDigit c"
  using assms natToString_digits [of "nat n"]
  by (auto simp: padStart_def numberToString_def isDigit_def)

lemma pad_nonempty: "padStart k (numberToString n) \<noteq> []"
  by (simp add: padStart_def numberToString_def natToString_nonempty)

lemma pad_value: "0 \<le> n \<Longrightarrow> digitsVal (padStart k (numberToString n)) = n"
  by (simp add: padStart_def numberToString_def digitsVal_zeros digitsVal_natToString)

lemma parseInt_digits:
  assumes "ds \<noteq> []" and "\<forall>c \<in> set ds. isDigit c"
  shows "parseInt ds = Some (digitsVal ds)"
proof -
  from assms obtain c cs where ds: "ds = c # cs" by (cases ds) auto
  with assms(2) have c: "isDigit c" by simp
  have t: "trimStart ds = ds"
    using isDigit_not_special(1) [OF c] by (simp add: trimStart_def ds)
  have z: "takeWhile isDigit ds = ds" using assms(2) by (simp add: takeWhile_eq_all_conv)
  show ?thesis
    unfolding parseInt_def t Let_def
    using isDigit_not_special(5,6) [OF c] z by (simp add: ds)
qed

lemma parseInt_pad: "0 \<le> n \<Longrightarrow> parseInt (padStart k (numberToString n)) = Some n"
  using parseInt_digits [OF pad_nonempty pad_digits, of n k] by (simp add: pad_value)

lemma split_no_sep: "sep \<notin> set a \<Longrightarrow> split sep a = [a]"
  by (induction a) auto

lemma split_append: "sep \<notin> set a \<Longrightarrow> split sep (a @ sep # b) = a # split sep b"
  by (induction a) auto

lemma trim_id:
  assumes "s \<noteq> []" "\<not> isWhiteSpace (hd s)" "\<not> isWhiteSpace (last s)"
  shows "trim s = s"
proof -
  have a: "trimStart s = s" using assms(1,2) by (cases s) (simp_all add: trimStart_def)
  from assms(1) obtain b l where s: "s = b @ [l]" by (cases s rule: rev_cases) auto
  with assms(3) have "dropWhile isWhiteSpace (rev s) = rev s" by simp
  then have "trimEnd s = s" by (simp add: trimEnd_def)
  with a show ?thesis by (simp add: trim_def)
qed

text \<open>
  The parts of the texts \<^verbatim>\<open>DD/MM/YYYY\<close>, \<^verbatim>\<open>HH:MM:SS\<close> and \<^verbatim>\<open>HH:MM\<close> as the parser reads them.
\<close>

lemma pad_free:
  assumes "0 \<le> n"
  shows "CHR ''/'' \<notin> set (padStart k (numberToString n))"
    and "CHR '' '' \<notin> set (padStart k (numberToString n))"
    and "CHR '':'' \<notin> set (padStart k (numberToString n))"
proof -
  have d: "isDigit c" if "c \<in> set (padStart k (numberToString n))" for c
    using pad_digits [OF assms, of k] that by simp
  show "CHR ''/'' \<notin> set (padStart k (numberToString n))"
    using d [of "CHR ''/''"] by (auto simp: isDigit_def)
  show "CHR '' '' \<notin> set (padStart k (numberToString n))"
    using d [of "CHR '' ''"] by (auto simp: isDigit_def)
  show "CHR '':'' \<notin> set (padStart k (numberToString n))"
    using d [of "CHR '':''"] by (auto simp: isDigit_def)
qed

lemma pad_ends:
  assumes "0 \<le> n"
  shows "\<not> isWhiteSpace (hd (padStart k (numberToString n)))"
    and "\<not> isWhiteSpace (last (padStart k (numberToString n)))"
proof -
  let ?p = "padStart k (numberToString n)"
  have "hd ?p \<in> set ?p" "last ?p \<in> set ?p" using pad_nonempty [of k n] by simp_all
  then have "isDigit (hd ?p)" "isDigit (last ?p)" using pad_digits [OF assms, of k] by simp_all
  then show "\<not> isWhiteSpace (hd ?p)" "\<not> isWhiteSpace (last ?p)"
    by (simp_all add: isDigit_not_special(1))
qed

lemma split_dateText:
  assumes "0 \<le> d" "0 \<le> m" "0 \<le> y"
  shows "split CHR ''/'' (dateText d m y) =
    [padStart 2 (numberToString d), padStart 2 (numberToString m), padStart 4 (numberToString y)]"
  unfolding dateText_def
  using pad_free(1) [OF assms(1), of 2] pad_free(1) [OF assms(2), of 2] pad_free(1) [OF assms(3), of 4]
  by (simp add: split_append split_no_sep)

lemma dateText_shape:
  assumes "0 \<le> d" "0 \<le> m" "0 \<le> y"
  shows "dateText d m y \<noteq> []" and "CHR '' '' \<notin> set (dateText d m y)"
    and "\<not> isWhiteSpace (hd (dateText d m y))" and "\<not> isWhiteSpace (last (dateText d m y))"
proof -
  show "dateText d m y \<noteq> []" by (simp add: dateText_def pad_nonempty)
  show "CHR '' '' \<notin> set (dateText d m y)"
    using pad_free(2) [OF assms(1), of 2] pad_free(2) [OF assms(2), of 2] pad_free(2) [OF assms(3), of 4]
    by (simp add: dateText_def)
  show "\<not> isWhiteSpace (hd (dateText d m y))"
    using pad_ends(1) [OF assms(1), of 2] by (simp add: dateText_def pad_nonempty)
  show "\<not> isWhiteSpace (last (dateText d m y))"
    using pad_ends(2) [OF assms(3), of 4] by (simp add: dateText_def pad_nonempty)
qed

lemma split_timeText:
  assumes "0 \<le> hh" "0 \<le> mm" "0 \<le> ss"
  shows "split CHR '':'' (timeText hh mm ss) =
    [padStart 2 (numberToString hh), padStart 2 (numberToString mm), padStart 2 (numberToString ss)]"
  unfolding timeText_def
  using pad_free(3) [OF assms(1), of 2] pad_free(3) [OF assms(2), of 2] pad_free(3) [OF assms(3), of 2]
  by (simp add: split_append split_no_sep)

lemma timeText_shape:
  assumes "0 \<le> hh" "0 \<le> mm" "0 \<le> ss"
  shows "timeText hh mm ss \<noteq> []" and "CHR '' '' \<notin> set (timeText hh mm ss)"
    and "\<not> isWhiteSpace (last (timeText hh mm ss))"
proof -
  show "timeText hh mm ss \<noteq> []" by (simp add: timeText_def pad_nonempty)
  show "CHR '' '' \<notin> set (timeText hh mm ss)"
    using pad_free(2) [OF assms(1), of 2] pad_free(2) [OF assms(2), of 2] pad_free(2) [OF assms(3), of 2]
    by (simp add: timeText_def)
  show "\<not> isWhiteSpace (last (timeText hh mm ss))"
    using pad_ends(2) [OF assms(3), of 2] by (simp add: timeText_def pad_nonempty)
qed

lemma split_timeTextShort:
  assumes "0 \<le> hh" "0 \<le> mm"
  shows "split CHR '':'' (timeTextShort hh mm) =
    [padStart 2 (numberToString hh), padStart 2 (numberToString mm)]"
  unfolding timeTextShort_def
  using pad_free(3) [OF assms(1), of 2] pad_free(3) [OF assms(2), of 2]
  by (simp add: split_append split_no_sep)

lemma timeTextShort_shape:
  assumes "0 \<le> hh" "0 \<le> mm"
  shows "timeTextShort hh mm \<noteq> []" and "CHR '' '' \<notin> set (timeTextShort hh mm)"
    and "\<not> isWhiteSpace (last (timeTextShort hh mm))"
proof -
  show "timeTextShort hh mm \<noteq> []" by (simp add: timeTextShort_def pad_nonempty)
  show "CHR '' '' \<notin> set (timeTextShort hh mm)"
    using pad_free(2) [OF assms(1), of 2] pad_free(2) [OF assms(2), of 2]
    by (simp add: timeTextShort_def)
  show "\<not> isWhiteSpace (last (timeTextShort hh mm))"
    using pad_ends(2) [OF assms(2), of 2] by (simp add: timeTextShort_def pad_nonempty)
qed


lemma parseTimeParts_none: "parseTimeParts [p] = (0, 0, 0)"
  by (simp add: parseTimeParts_def)

lemma parseTimeParts_timeText:
  assumes "0 \<le> hh" "0 \<le> mm" "0 \<le> ss"
  shows "parseTimeParts [p, timeText hh mm ss] = (hh, mm, ss)"
  using assms timeText_shape(1) [OF assms]
  by (simp add: parseTimeParts_def truthy_def split_timeText parseIntAt_def parseInt_pad or_zero_def)

lemma parseTimeParts_timeTextShort:
  assumes "0 \<le> hh" "0 \<le> mm"
  shows "parseTimeParts [p, timeTextShort hh mm] = (hh, mm, 0)"
  using assms timeTextShort_shape(1) [OF assms]
  by (simp add: parseTimeParts_def truthy_def split_timeTextShort parseIntAt_def parseInt_pad or_zero_def)

lemma parseTransferDate_parts:
  assumes "0 \<le> d" "0 \<le> m" "0 \<le> y"
    and "s \<noteq> []" and "split CHR '' '' (trim s) = dateText d m y # rest"
    and "parseTimeParts (dateText d m y # rest) = (hh, mm, ss)"
  shows "parseTransferDate h (Some s) = newDate h (Some y) (Some (m - 1)) (Some d) hh mm ss"
  using assms(1-4)
  by (simp add: parseTransferDate_def parseDateString_def truthy_def assms(5) assms(6)
      split_dateText [OF assms(1-3)] parseInt_pad)

lemma parseTransferDate_date_only:
  assumes "0 \<le> d" "0 \<le> m" "0 \<le> y"
  shows "parseTransferDate h (Some (dateText d m y)) = newDate h (Some y) (Some (m - 1)) (Some d) 0 0 0"
proof (rule parseTransferDate_parts [OF assms])
  show "dateText d m y \<noteq> []" by (rule dateText_shape [OF assms])
  have "trim (dateText d m y) = dateText d m y" by (rule trim_id) (rule dateText_shape [OF assms])+
  then show "split CHR '' '' (trim (dateText d m y)) = [dateText d m y]"
    using dateText_shape(2) [OF assms] by (simp add: split_no_sep)
  show "parseTimeParts [dateText d m y] = (0, 0, 0)" by (rule parseTimeParts_none)
qed

lemma parseTransferDate_with_token:
  assumes "0 \<le> d" "0 \<le> m" "0 \<le> y"
    and tok: "tok \<noteq> []" "CHR '' '' \<notin> set tok" "\<not> isWhiteSpace (last tok)"
    and "parseTimeParts [dateText d m y, tok] = (hh, mm, ss)"
  shows "parseTransferDate h (Some (dateText d m y @ '' '' @ tok))
         = newDate h (Some y) (Some (m - 1)) (Some d) hh mm ss"
proof (rule parseTransferDate_parts [OF assms(1-3)])
  let ?s = "dateText d m y @ '' '' @ tok"
  show "?s \<noteq> []" by simp
  have "trim ?s = ?s"
  proof (rule trim_id)
    show "?s \<noteq> []" by simp
    show "\<not> isWhiteSpace (hd ?s)" using dateText_shape(1,3) [OF assms(1-3)] by simp
    show "\<not> isWhiteSpace (last ?s)" using tok by simp
  qed
  then show "split CHR '' '' (trim ?s) = [dateText d m y, tok]"
    using dateText_shape(2) [OF assms(1-3)] tok(2) by (simp add: split_append split_no_sep)
  show "parseTimeParts [dateText d m y, tok] = (hh, mm, ss)" by (rule assms(7))
qed

lemma parseTransferDate_texts:
  assumes "validDate y m d" and "100 \<le> y" and "validTime hh mm ss"
    and "s = dateText d m y \<and> hh = 0 \<and> mm = 0 \<and> ss = 0
       \<or> s = dateText d m y @ '' '' @ timeText hh mm ss
       \<or> s = dateText d m y @ '' '' @ timeTextShort hh mm \<and> ss = 0"
  shows "parseTransferDate h (Some s) = newDate h (Some y) (Some (m - 1)) (Some d) hh mm ss"
proof -
  have n: "0 \<le> d" "0 \<le> m" "0 \<le> y" using assms(1,2) by (simp_all add: validDate_def)
  have t: "0 \<le> hh" "0 \<le> mm" "0 \<le> ss" using assms(3) by (simp_all add: validTime_def)
  from assms(4) consider
    (plain) "s = dateText d m y" "hh = 0" "mm = 0" "ss = 0"
    | (full) "s = dateText d m y @ '' '' @ timeText hh mm ss"
    | (short) "s = dateText d m y @ '' '' @ timeTextShort hh mm" "ss = 0"
    by blast
  then show ?thesis
  proof cases
    case plain
    then show ?thesis by (simp add: parseTransferDate_date_only [OF n])
  next
    case full
    show ?thesis
      unfolding full
      by (rule parseTransferDate_with_token [OF n timeText_shape [OF t] parseTimeParts_timeText [OF t]])
  next
    case short
    show ?thesis
      unfolding short(1) short(2)
      by (rule parseTransferDate_with_token
          [OF n timeTextShort_shape [OF t(1,2)] parseTimeParts_timeTextShort [OF t(1,2)]])
  qed
qed


subsection \<open>The filter callback\<close>

text \<open>
  The callback keeps a transaction when each of its four tests lets it pass.
\<close>

lemma keepTransaction_iff:
  "keepTransaction h f t \<longleftrightarrow>
     (month f = [] \<or>
        (\<forall>d. parseTransferDate h (transfer_time t) = Some d \<longrightarrow> monthYear h d = month f))
   \<and> (date f = [] \<or>
        (\<forall>d. parseTransferDate h (transfer_time t) = Some d \<longrightarrow> dateStr h d = date f))
   \<and> (sender_filter f = [] \<or>
        includes_str (toLowerCase (sender t)) (toLowerCase (sender_filter f)))
   \<and> (receiver_filter f = [] \<or>
        (\<forall>r. receiver t = Some r \<longrightarrow>
           r = [] \<or> includes_str (toLowerCase r) (toLowerCase (receiver_filter f))))"
  unfolding keepTransaction_def Let_def truthy_def
  by (cases "parseTransferDate h (transfer_time t)"; cases "receiver t") simp_all

lemma keep_emptyFilter: "keepTransaction h \<lparr> month = [], date = [], sender_filter = [], receiver_filter = [] \<rparr> t"
  by (simp add: keepTransaction_iff)

lemma filter_emptyFilter:
  "filterTransactions h ts \<lparr> month = [], date = [], sender_filter = [], receiver_filter = [] \<rparr> = ts"
  by (simp add: filterTransactions_def keep_emptyFilter)

lemma keep_antimono:
  assumes "month f = [] \<or> month f = month g" "date f = [] \<or> date f = date g"
    "sender_filter f = [] \<or> sender_filter f = sender_filter g"
    "receiver_filter f = [] \<or> receiver_filter f = receiver_filter g"
    and "keepTransaction h g t"
  shows "keepTransaction h f t"
proof -
  note g = assms(5) [unfolded keepTransaction_iff]
  show ?thesis
    unfolding keepTransaction_iff
  proof (intro conjI)
    show "month f = [] \<or>
        (\<forall>d. parseTransferDate h (transfer_time t) = Some d \<longrightarrow> monthYear h d = month f)"
      using assms(1) g by (cases "month f = []") simp_all
    show "date f = [] \<or>
        (\<forall>d. parseTransferDate h (transfer_time t) = Some d \<longrightarrow> dateStr h d = date f)"
      using assms(2) g by (cases "date f = []") simp_all
    show "sender_filter f = [] \<or>
        includes_str (toLowerCase (sender t)) (toLowerCase (sender_filter f))"
      using assms(3) g by (cases "sender_filter f = []") simp_all
    show "receiver_filter f = [] \<or>
        (\<forall>r. receiver t = Some r \<longrightarrow>
           r = [] \<or> includes_str (toLowerCase r) (toLowerCase (receiver_filter f)))"
      using assms(4) g by (cases "receiver_filter f = []") simp_all
  qed
qed


subsection \<open>The dates returned, and the exceptions caught\<close>

lemma TimeClip_range: "TimeClip x = Some t \<Longrightarrow> \<bar>t\<bar> \<le> maxTime"
  by (cases "\<bar>x\<bar> > maxTime") (simp_all add: TimeClip_def)

lemma newDate_range: "\<forall>t. newDate h y m d hh mm ss = Some t \<longrightarrow> \<bar>t\<bar> \<le> maxTime"
proof (cases "\<exists>a b c. y = Some a \<and> m = Some b \<and> d = Some c")
  case True
  then obtain a b c where "y = Some a" "m = Some b" "d = Some c" by blast
  then show ?thesis using TimeClip_range by (simp add: newDate_def)
next
  case False
  then have "newDate h y m d hh mm ss = None"
    by (cases y; cases m; cases d) (simp_all add: newDate_def)
  then show ?thesis by simp
qed

lemma newDateFromString_range: "\<forall>t. newDateFromString h s = Some t \<longrightarrow> \<bar>t\<bar> \<le> maxTime"
  using TimeClip_range by (cases "DateParse h s") (simp_all add: newDateFromString_def)

lemma parseDateString_range: "parseDateString h s = Some t \<Longrightarrow> \<bar>t\<bar> \<le> maxTime"
proof -
  have "\<forall>t. parseDateString h s = Some t \<longrightarrow> \<bar>t\<bar> \<le> maxTime"
    unfolding parseDateString_def Let_def
    by (simp add: newDate_range newDateFromString_range split: option.split list.split prod.split)
  then show "parseDateString h s = Some t \<Longrightarrow> \<bar>t\<bar> \<le> maxTime" by simp
qed

lemma parseTransferDate_range: "parseTransferDate h s = Some t \<Longrightarrow> \<bar>t\<bar> \<le> maxTime"
  by (cases s) (auto simp: parseTransferDate_def dest: parseDateString_range split: if_splits)

text \<open>
  On a value that is truthy and not a string the \<^verbatim>\<open>try\<close> block throws, and the
  \<^verbatim>\<open>catch\<close> clause turns the exception into \<^verbatim>\<open>null\<close>.
\<close>

lemma parseTransferDate_try_throws:
  "parseTransferDate_try h (JBool True) = Inl TypeError"
  "parseTransferDate_try h (JNumber 5) = Inl TypeError"
  "parseTransferDate_try h JObject = Inl TypeError"
  by (simp_all add: parseTransferDate_try_def)

lemma parseTransferDate_dyn_caught:
  "parseTransferDate_dyn h (JBool True) = Inr None"
  "parseTransferDate_dyn h (JNumber 5) = Inr None"
  "parseTransferDate_dyn h JObject = Inr None"
  by (simp_all add: parseTransferDate_dyn_def parseTransferDate_try_def try_catch_def js_truthy_def)

text \<open>On \<^verbatim>\<open>null\<close> and on a string it returns what the function of the declared type returns.\<close>

lemma parseTransferDate_dyn_null: "parseTransferDate_dyn h JNull = Inr (parseTransferDate h None)"
  by (simp add: parseTransferDate_dyn_def js_truthy_def parseTransferDate_def)

lemma parseTransferDate_dyn_string:
  "parseTransferDate_dyn h (JString s) = Inr (parseTransferDate h (Some s))"
  by (simp add: parseTransferDate_dyn_def js_truthy_def parseTransferDate_def
      parseTransferDate_try_def try_catch_def)

lemma parseTransferDate_dyn_returns: "\<exists>r. parseTransferDate_dyn h v = Inr r"
proof (cases "js_truthy v")
  case False
  then show ?thesis by (simp add: parseTransferDate_dyn_def)
next
  case True
  then show ?thesis
    by (cases "parseTransferDate_try h v") (simp_all add: parseTransferDate_dyn_def try_catch_def)
qed

lemma parseTransferDate_dyn_range:
  assumes "parseTransferDate_dyn h v = Inr (Some t)"
  shows "\<bar>t\<bar> \<le> maxTime"
proof (cases v)
  case (JString s)
  with assms have "parseTransferDate h (Some s) = Some t"
    by (simp add: parseTransferDate_dyn_string)
  then show ?thesis by (rule parseTransferDate_range)
qed (use assms in \<open>simp_all add: parseTransferDate_dyn_def parseTransferDate_try_def try_catch_def
      js_truthy_def split: if_splits\<close>)


subsection \<open>Amounts\<close>

lemma parseFloat_100: "parseFloat ''100'' = Finite 100"
  by (simp add: parseFloat_def trimStart_def isWhiteSpace_def isDigit_def digitsVal_def digitVal_def
      exponentPart_def pow10_def)

lemma parseFloat_50: "parseFloat ''50'' = Finite 50"
  by (simp add: parseFloat_def trimStart_def isWhiteSpace_def isDigit_def digitsVal_def digitVal_def
      exponentPart_def pow10_def)

lemma parseFloat_abc: "parseFloat ''abc'' = NaN"
  by (simp add: parseFloat_def trimStart_def isWhiteSpace_def isDigit_def)


section \<open>The claims\<close>

subsection \<open>Filtering\<close>

text \<open>
  Claim C1, as stated, fails: the month and date tests of the callback are guarded by
  \<^verbatim>\<open>filter.month && transactionDate\<close> and \<^verbatim>\<open>filter.date && transactionDate\<close>, so a
  transaction whose date is \<^verbatim>\<open>null\<close> skips them. Here the month filter is active and
  the transaction without a date is kept.
\<close>

theorem unparseable_date_kept_counterexample:
  "parseTransferDate vnHost (transfer_time (tx ''alice'' None None None)) = None
   \<and> month (emptyFilter\<lparr>month := ''2024-01''\<rparr>) \<noteq> ''''
   \<and> filterTransactions vnHost [tx ''alice'' None None None] (emptyFilter\<lparr>month := ''2024-01''\<rparr>)
       = [tx ''alice'' None None None]"
  by (simp add: filterTransactions_def keepTransaction_iff parseTransferDate_def tx_def emptyFilter_def)

text \<open>
  Claim C1, amended: for a transaction whose \<^verbatim>\<open>transfer_time\<close> does not parse, the
  month and date filters have no effect. The callback decides as it would with both
  of them cleared, and \<^verbatim>\<open>filterTransactions\<close> keeps the transaction exactly when the
  sender and receiver tests let it pass.
\<close>

theorem unparseable_date_ignores_date_filters:
  assumes "parseTransferDate h (transfer_time t) = None"
  shows "keepTransaction h f t = keepTransaction h (f\<lparr>month := '''', date := ''''\<rparr>) t
       \<and> (t \<in> set (filterTransactions h ts f)
            \<longleftrightarrow> t \<in> set ts \<and> keepTransaction h (f\<lparr>month := '''', date := ''''\<rparr>) t)"
  using assms by (simp add: filterTransactions_def keepTransaction_iff)

theorem unparseable_date_ignores_date_filters_witness:
  "keepTransaction vnHost (emptyFilter\<lparr>month := ''2024-01'', sender_filter := ''bob''\<rparr>)
      (tx ''alice'' None None None)
   = keepTransaction vnHost (emptyFilter\<lparr>month := ''2024-01'', sender_filter := ''bob''\<rparr>
         \<lparr>month := '''', date := ''''\<rparr>) (tx ''alice'' None None None)"
proof -
  have "parseTransferDate vnHost (transfer_time (tx ''alice'' None None None)) = None"
    by (simp add: parseTransferDate_def tx_def)
  from unparseable_date_ignores_date_filters [OF this] show ?thesis by blast
qed

text \<open>
  Claim C4, as stated, fails: the receiver test is guarded by
  \<^verbatim>\<open>filter.receiver && transaction.receiver\<close>, so a transaction without a receiver
  skips it. Here the receiver filter is active and the transaction without a
  receiver is kept.
\<close>

theorem absent_receiver_kept_counterexample:
  "receiver (tx ''alice'' None None None) = None
   \<and> receiver_filter (emptyFilter\<lparr>receiver_filter := ''bob''\<rparr>) \<noteq> ''''
   \<and> filterTransactions vnHost [tx ''alice'' None None None] (emptyFilter\<lparr>receiver_filter := ''bob''\<rparr>)
       = [tx ''alice'' None None None]"
  by (simp add: filterTransactions_def keepTransaction_iff tx_def emptyFilter_def)

text \<open>
  Claim C4, amended: for a transaction whose \<^verbatim>\<open>receiver\<close> is absent, the receiver
  filter has no effect. The callback decides as it would with the receiver filter
  cleared, and \<^verbatim>\<open>filterTransactions\<close> keeps the transaction exactly when the month,
  date and sender tests let it pass.
\<close>

theorem absent_receiver_ignores_receiver_filter:
  assumes "receiver t = None"
  shows "keepTransaction h f t = keepTransaction h (f\<lparr>receiver_filter := ''''\<rparr>) t
       \<and> (t \<in> set (filterTransactions h ts f)
            \<longleftrightarrow> t \<in> set ts \<and> keepTransaction h (f\<lparr>receiver_filter := ''''\<rparr>) t)"
  using assms by (simp add: filterTransactions_def keepTransaction_iff)

theorem absent_receiver_ignores_receiver_filter_witness:
  "keepTransaction vnHost (emptyFilter\<lparr>receiver_filter := ''bob''\<rparr>) (tx ''alice'' None None None)
   = keepTransaction vnHost (emptyFilter\<lparr>receiver_filter := ''bob''\<rparr>\<lparr>receiver_filter := ''''\<rparr>)
       (tx ''alice'' None None None)"
proof -
  have "receiver (tx ''alice'' None None None) = None" by (simp add: tx_def)
  from absent_receiver_ignores_receiver_filter [OF this] show ?thesis by blast
qed

text \<open>
  Claim C9: with every field of the filter empty, \<^verbatim>\<open>filterTransactions\<close> returns the
  list of transactions as it is, in order and length; and for every filter its result
  is a subsequence of the list, in the order of the list.
\<close>

theorem filterTransactions_empty_filter_and_subseq:
  "filterTransactions h ts \<lparr> month = '''', date = '''', sender_filter = '''', receiver_filter = '''' \<rparr> = ts
   \<and> subseq (filterTransactions h ts f) ts"
  by (simp add: filter_emptyFilter) (simp add: filterTransactions_def)

text \<open>
  Claim C10: when two filters \<open>f\<close> and \<open>g\<close> agree on all fields but one, which is
  empty in \<open>f\<close> and not empty in \<open>g\<close>, every transaction that
  \<^verbatim>\<open>filterTransactions\<close> keeps under \<open>g\<close> it keeps under \<open>f\<close> too; the result
  under \<open>g\<close> is even a subsequence of the result under \<open>f\<close>.
\<close>

theorem filterTransactions_antimonotone:
  assumes "(month f = [] \<and> month g \<noteq> [] \<and> date f = date g
              \<and> sender_filter f = sender_filter g \<and> receiver_filter f = receiver_filter g)
         \<or> (date f = [] \<and> date g \<noteq> [] \<and> month f = month g
              \<and> sender_filter f = sender_filter g \<and> receiver_filter f = receiver_filter g)
         \<or> (sender_filter f = [] \<and> sender_filter g \<noteq> [] \<and> month f = month g
              \<and> date f = date g \<and> receiver_filter f = receiver_filter g)
         \<or> (receiver_filter f = [] \<and> receiver_filter g \<noteq> [] \<and> month f = month g
              \<and> date f = date g \<and> sender_filter f = sender_filter g)"
  shows "set (filterTransactions h ts g) \<subseteq> set (filterTransactions h ts f)
       \<and> subseq (filterTransactions h ts g) (filterTransactions h ts f)"
proof -
  have a: "month f = [] \<or> month f = month g" "date f = [] \<or> date f = date g"
    "sender_filter f = [] \<or> sender_filter f = sender_filter g"
    "receiver_filter f = [] \<or> receiver_filter f = receiver_filter g"
    using assms by (elim disjE; simp)+
  have k: "keepTransaction h f t" if "keepTransaction h g t" for t
    using keep_antimono [OF a that] .
  have "filter (keepTransaction h g) (filter (keepTransaction h f) ts) = filter (keepTransaction h g) ts"
    unfolding filter_filter by (rule filter_cong) (use k in auto)
  then have e: "filterTransactions h ts g = filter (keepTransaction h g) (filterTransactions h ts f)"
    by (simp add: filterTransactions_def)
  have "subseq (filterTransactions h ts g) (filterTransactions h ts f)"
    unfolding e by simp
  moreover have "set (filterTransactions h ts g) \<subseteq> set (filterTransactions h ts f)"
    unfolding e by simp
  ultimately show ?thesis by simp
qed

theorem filterTransactions_antimonotone_witness:
  "set (filterTransactions vnHost
          [tx ''Alice'' None (Some ''15/01/2024 10:00:00'') None, tx ''Bob'' None (Some ''15/02/2024'') None]
          (emptyFilter\<lparr>month := ''2024-01'', sender_filter := ''a''\<rparr>))
   \<subseteq> set (filterTransactions vnHost
          [tx ''Alice'' None (Some ''15/01/2024 10:00:00'') None, tx ''Bob'' None (Some ''15/02/2024'') None]
          (emptyFilter\<lparr>sender_filter := ''a''\<rparr>))"
  using filterTransactions_antimonotone
    [of "emptyFilter\<lparr>sender_filter := ''a''\<rparr>"
        "emptyFilter\<lparr>month := ''2024-01'', sender_filter := ''a''\<rparr>" vnHost
        "[tx ''Alice'' None (Some ''15/01/2024 10:00:00'') None, tx ''Bob'' None (Some ''15/02/2024'') None]"]
  by (simp add: emptyFilter_def)

subsection \<open>Combining the filters of the two cards\<close>

text \<open>
  Claim C6: in the combined filter, month and date are those of the total card when
  they are not empty and those of the average card otherwise (month \<^verbatim>\<open>2024-01\<close> over
  \<^verbatim>\<open>2024-03\<close> gives \<^verbatim>\<open>2024-01\<close>; an empty month over \<^verbatim>\<open>2024-03\<close> gives
  \<^verbatim>\<open>2024-03\<close>), the sender is that of the average card, and the receiver is empty.
\<close>

theorem combinedFilter_priority:
  "month (combinedFilter t a) = (if month t \<noteq> '''' then month t else month a)
   \<and> date (combinedFilter t a) = (if date t \<noteq> '''' then date t else date a)
   \<and> sender_filter (combinedFilter t a) = sender_filter a
   \<and> receiver_filter (combinedFilter t a) = ''''
   \<and> month (combinedFilter (t\<lparr>month := ''2024-01''\<rparr>) (a\<lparr>month := ''2024-03''\<rparr>)) = ''2024-01''
   \<and> month (combinedFilter (t\<lparr>month := ''''\<rparr>) (a\<lparr>month := ''2024-03''\<rparr>)) = ''2024-03''"
  by (simp add: combinedFilter_def or_else_def truthy_def)

subsection \<open>Aggregates\<close>

text \<open>
  Claim C3 does not hold of the program. An absent or empty amount is replaced by
  \<^verbatim>\<open>"0"\<close> before \<^verbatim>\<open>parseFloat\<close>, but an amount that is not a number is not:
  \<^verbatim>\<open>parseFloat("abc")\<close> is \<^verbatim>\<open>NaN\<close>, and \<^verbatim>\<open>NaN\<close> absorbs the sum. With the amounts
  \<^verbatim>\<open>"abc"\<close> and \<^verbatim>\<open>"100"\<close> the total is \<^verbatim>\<open>NaN\<close>, where the second amount alone gives
  100.
\<close>

theorem malformed_amount_poisons_sum:
  "totalAmountStats vnHost [tx ''alice'' None None (Some ''abc''), tx ''bob'' None None (Some ''100'')]
      emptyFilter = NaN
   \<and> totalAmountStats vnHost [tx ''bob'' None None (Some ''100'')] emptyFilter = Finite 100"
  by (simp add: totalAmountStats_def emptyFilter_def filter_emptyFilter sumAmounts_def tx_def
      amountOrZero_def or_else_def truthy_def parseFloat_100 parseFloat_abc)

text \<open>
  Claim C7: over no transactions the sum is 0 and the average is 0, and the average of
  two transactions with the amounts \<^verbatim>\<open>"100"\<close> and \<^verbatim>\<open>"50"\<close> is 75.
\<close>

theorem aggregates_empty_and_average:
  "totalAmountStats h [] f = Finite 0
   \<and> avgAmountStats h [] f = Finite 0
   \<and> sumAmounts [] = Finite 0
   \<and> avgAmountStats h [t1\<lparr>amount := Some ''100''\<rparr>, t2\<lparr>amount := Some ''50''\<rparr>]
        \<lparr> month = '''', date = '''', sender_filter = '''', receiver_filter = '''' \<rparr> = Finite 75"
  by (simp add: totalAmountStats_def avgAmountStats_def filter_emptyFilter sumAmounts_def
      filterTransactions_def keep_emptyFilter amountOrZero_def or_else_def truthy_def parseFloat_100
      parseFloat_50)

subsection \<open>Parsing the transfer time\<close>

text \<open>
  Claim C2 does not hold of the program. The Date constructor carries a day beyond
  the end of its month into the next month, and the test \<^verbatim>\<open>isNaN(date.getTime())\<close>
  under the comment \<^verbatim>\<open>Validate the date\<close> only finds components that are not
  numbers. For \<^verbatim>\<open>"31/02/2024"\<close>, which is no date of the calendar, the parser returns
  2 March 2024.
\<close>

theorem invalid_day_rolls_over:
  "\<not> validDate 2024 2 31
   \<and> parseTransferDate vnHost (Some ''31/02/2024'') = Some 1709312400000
   \<and> getFullYear vnHost 1709312400000 = 2024
   \<and> getMonth vnHost 1709312400000 + 1 = 3
   \<and> getDate vnHost 1709312400000 = 2"
  by code_simp

text \<open>
  Claim C5, as stated, fails in two ways. The Date constructor takes a year from 0 to
  99 as a year of the 20th century, so \<^verbatim>\<open>"05/03/0050"\<close>, a date of the calendar,
  gives the year 1950. And the constructor reads its arguments in the time zone of
  the host: a local time that a change of the offset skips is moved forward, over
  midnight when the change is at the end of a day. In \<^verbatim>\<open>Asia/Ho_Chi_Minh\<close> the
  clocks went from 23:00 on 31 December 1959 to 0:00 on 1 January 1960, and
  \<^verbatim>\<open>"31/12/1959 23:30:00"\<close> gives 1 January 1960.
\<close>

theorem two_digit_year_and_skipped_time_counterexample:
  "validDate 50 3 5
   \<and> dateText 5 3 50 = ''05/03/0050''
   \<and> parseTransferDate vnHost (Some ''05/03/0050'') = Some (- 625737600000)
   \<and> getFullYear vnHost (- 625737600000) = 1950
   \<and> validDate 1959 12 31 \<and> validTime 23 30 0
   \<and> dateText 31 12 1959 @ '' '' @ timeText 23 30 0 = ''31/12/1959 23:30:00''
   \<and> parseTransferDate vnHost (Some ''31/12/1959 23:30:00'') = Some (- 315646200000)
   \<and> getFullYear vnHost (- 315646200000) = 1960
   \<and> getMonth vnHost (- 315646200000) + 1 = 1
   \<and> getDate vnHost (- 315646200000) = 1"
  by code_simp

text \<open>
  Claim C5, amended: take a date of the calendar with a year from 0100 to 9999,
  written \<^verbatim>\<open>DD/MM/YYYY\<close> and followed by nothing, by a time \<^verbatim>\<open>HH:MM:SS\<close> or by a
  time \<^verbatim>\<open>HH:MM\<close> (hours below 24, minutes and seconds below 60; a missing part
  counts as 0), and let \<open>x\<close> be the local time value of that date and time. The
  parser reads the first component as the day, the second as the month and the third
  as the year, and it returns a Date with exactly that year, month and day if and
  only if the instant the host gives to \<open>x\<close> is within the range of Date and reads,
  in local time, as a time of the same day. That is so whenever the local time
  exists in the time zone of the host (reading the instant back gives \<open>x\<close>) and
  the offset taken for it is at most a day; so for every zone of constant offset, and
  for every time that no change of the offset skips.
\<close>

theorem parseTransferDate_day_first:
  assumes "validDate y m d" and "100 \<le> y" and "y \<le> 9999" and "validTime hh mm ss"
    and "s = dateText d m y \<and> hh = 0 \<and> mm = 0 \<and> ss = 0
       \<or> s = dateText d m y @ '' '' @ timeText hh mm ss
       \<or> s = dateText d m y @ '' '' @ timeTextShort hh mm \<and> ss = 0"
    and "x = MakeDate (MakeDay y (m - 1) d) (MakeTime hh mm ss 0)"
  shows "((\<exists>t. parseTransferDate h (Some s) = Some t
             \<and> getFullYear h t = y \<and> getMonth h t + 1 = m \<and> getDate h t = d)
          \<longleftrightarrow> \<bar>UTC h x\<bar> \<le> maxTime \<and> Day (LocalTime h (UTC h x)) = Day x)
       \<and> (\<bar>LocalTZA h x False\<bar> \<le> msPerDay \<and> LocalTime h (UTC h x) = x
            \<longrightarrow> (\<exists>t. parseTransferDate h (Some s) = Some t
                  \<and> getFullYear h t = y \<and> getMonth h t + 1 = m \<and> getDate h t = d))"
proof -
  have p: "parseTransferDate h (Some s) = newDate h (Some y) (Some (m - 1)) (Some d) hh mm ss"
    by (rule parseTransferDate_texts [OF assms(1,2,4,5)])
  have iff: "(\<exists>t. parseTransferDate h (Some s) = Some t
             \<and> getFullYear h t = y \<and> getMonth h t + 1 = m \<and> getDate h t = d)
          \<longleftrightarrow> \<bar>UTC h x\<bar> \<le> maxTime \<and> Day (LocalTime h (UTC h x)) = Day x"
    unfolding p by (rule newDate_valid [OF assms(1,2,4,6)])
  have y0: "0 \<le> y" using assms(2) by simp
  have "\<bar>UTC h x\<bar> \<le> maxTime \<and> Day (LocalTime h (UTC h x)) = Day x"
    if "\<bar>LocalTZA h x False\<bar> \<le> msPerDay \<and> LocalTime h (UTC h x) = x"
    using existing_local_time [OF assms(1) y0 assms(3,4,6)] that by blast
  with iff show ?thesis by blast
qed

theorem parseTransferDate_day_first_witness:
  "\<exists>t. parseTransferDate vnHost (Some ''05/03/2024 10:00:00'') = Some t
       \<and> getFullYear vnHost t = 2024 \<and> getMonth vnHost t + 1 = 3 \<and> getDate vnHost t = 5"
proof -
  let ?x = "MakeDate (MakeDay 2024 (3 - 1) 5) (MakeTime 10 0 0 0)"
  have a: "validDate 2024 3 5" by code_simp
  have b: "validTime 10 0 0" by code_simp
  have y: "(100::int) \<le> 2024" "(2024::int) \<le> 9999" by simp_all
  have "''05/03/2024 10:00:00'' = dateText 5 3 2024 @ '' '' @ timeText 10 0 0" by code_simp
  then have c: "''05/03/2024 10:00:00'' = dateText 5 3 2024 \<and> (10::int) = 0 \<and> (0::int) = 0 \<and> (0::int) = 0
       \<or> ''05/03/2024 10:00:00'' = dateText 5 3 2024 @ '' '' @ timeText 10 0 0
       \<or> ''05/03/2024 10:00:00'' = dateText 5 3 2024 @ '' '' @ timeTextShort 10 0 \<and> (0::int) = 0"
    by blast
  have d: "\<bar>LocalTZA vnHost ?x False\<bar> \<le> msPerDay \<and> LocalTime vnHost (UTC vnHost ?x) = ?x"
    by code_simp
  from parseTransferDate_day_first [OF a y b c refl, of vnHost] d
  show ?thesis by blast
qed

text \<open>
  Claim C8: \<^verbatim>\<open>parseTransferDate\<close>, with its \<^verbatim>\<open>try\<close> and \<^verbatim>\<open>catch\<close>, returns \<^verbatim>\<open>null\<close>
  for \<^verbatim>\<open>null\<close> and for the empty string; on every string it returns what the
  \<^verbatim>\<open>try\<close> block computes, without an exception; on every value \<open>v\<close> at all it
  returns and does not throw (what the block throws on a value that is not a string
  is caught); and what it returns is \<^verbatim>\<open>null\<close> or a Date whose time value is in the
  supported range, never an invalid Date.
\<close>

theorem parseTransferDate_never_throws:
  "parseTransferDate_dyn h JNull = Inr None
   \<and> parseTransferDate_dyn h (JString '''') = Inr None
   \<and> parseTransferDate_dyn h (JString s) = Inr (parseTransferDate h (Some s))
   \<and> (\<exists>r. parseTransferDate_dyn h v = Inr r)
   \<and> (parseTransferDate_dyn h v = Inr (Some t) \<longrightarrow> \<bar>t\<bar> \<le> maxTime)"
proof (intro conjI impI)
  show "parseTransferDate_dyn h JNull = Inr None"
    by (simp add: parseTransferDate_dyn_null parseTransferDate_def)
  show "parseTransferDate_dyn h (JString '''') = Inr None"
    by (simp add: parseTransferDate_dyn_string parseTransferDate_def truthy_def)
  show "parseTransferDate_dyn h (JString s) = Inr (parseTransferDate h (Some s))"
    by (rule parseTransferDate_dyn_string)
  show "\<exists>r. parseTransferDate_dyn h v = Inr r" by (rule parseTransferDate_dyn_returns)
  show "\<bar>t\<bar> \<le> maxTime" if "parseTransferDate_dyn h v = Inr (Some t)"
    using that by (rule parseTransferDate_dyn_range)
qed

theorem parseTransferDate_never_throws_witness:
  "parseTransferDate_dyn vnHost (JString ''05/03/2024 10:00:00'') = Inr (Some 1709607600000)
   \<and> \<bar>1709607600000\<bar> \<le> maxTime"
proof -
  have a: "parseTransferDate_dyn vnHost (JString ''05/03/2024 10:00:00'') = Inr (Some 1709607600000)"
    by code_simp
  from parseTransferDate_never_throws
    [of vnHost "''05/03/2024 10:00:00''" "JString ''05/03/2024 10:00:00''" 1709607600000] a
  show ?thesis by blast
qed

end
